theory Spec2Isabelle
  imports Complex_Main "HOL-Library.AList" "HOL-Library.Sublist"
begin

section \<open>Python values used by the ChatGPT service client\<close>

text \<open>
  The development embeds \<^verbatim>\<open>app/services/chatgpt.py\<close> (class \<^verbatim>\<open>ChatGPTService\<close>).
  A Python \<^verbatim>\<open>str\<close> is a \<^typ>\<open>string\<close> whose characters are the code points below 256.
  Decoded JSON (and \<^verbatim>\<open>None\<close>, which is \<open>JNull\<close>) is a value of the type \<open>json\<close>;
  a JSON object is an association list with one entry per key. JSON numbers are
  integers here.
\<close>

datatype json =
    JNull
  | JBool bool
  | JInt int
  | JStr string
  | JArr "json list"
  | JObj "(string \<times> json) list"

text \<open>
  The string literals of the source that hold Chinese text are named, one name per
  literal (or per literal fragment of an f-string); none of them holds an ASCII digit.
  A message is the sequence of its fragments, the interpolated values being \<open>Txt\<close>.
\<close>

datatype lit =
    RequestFailed          \<comment> \<open>line 63, the message for an empty text\<close>
  | CloudflareBlocked      \<comment> \<open>line 68, the request was intercepted by Cloudflare\<close>
  | HtmlPage               \<comment> \<open>line 75, the service returned an HTML page\<close>
  | TruncatedSuffix        \<comment> \<open>line 82, the words inside the marker appended after 2000 characters\<close>
  | UnsupportedMethod      \<comment> \<open>line 248, prefix of the ValueError text\<close>
  | ServerErrorPrefix      \<comment> \<open>line 386, before the status code\<close>
  | RetriedInfix           \<comment> \<open>line 386, between the status code and MAX_RETRIES\<close>
  | TimesSuffix            \<comment> \<open>lines 386 and 404, after MAX_RETRIES\<close>
  | TimeoutRetriedPrefix   \<comment> \<open>line 404, before MAX_RETRIES\<close>
  | RequestExceptionPrefix \<comment> \<open>line 422, before str(e)\<close>
  | UnknownError           \<comment> \<open>line 430\<close>

datatype part = Lit lit | Txt string

type_synonym message = "part list"

datatype exn =
    TimeoutError               \<comment> \<open>asyncio.TimeoutError\<close>
  | ValueError message
  | AttributeError message
  | TypeError message
  | OtherError message         \<comment> \<open>any other subclass of Exception\<close>

fun exn_str :: "exn \<Rightarrow> message" where
  "exn_str TimeoutError = []"
| "exn_str (ValueError m) = m"
| "exn_str (AttributeError m) = m"
| "exn_str (TypeError m) = m"
| "exn_str (OtherError m) = m"

text \<open>Truth value of a Python object (\<^verbatim>\<open>if not text\<close>, \<^verbatim>\<open>a or b\<close>).\<close>

fun truthy :: "json \<Rightarrow> bool" where
  "truthy JNull = False"
| "truthy (JBool b) = b"
| "truthy (JInt n) = (n \<noteq> 0)"
| "truthy (JStr s) = (s \<noteq> [])"
| "truthy (JArr xs) = (xs \<noteq> [])"
| "truthy (JObj d) = (d \<noteq> [])"

text \<open>\<^verbatim>\<open>d.get(k)\<close> and \<^verbatim>\<open>d.get(k, default)\<close> on a dict.\<close>

definition dict_get_default :: "(string \<times> json) list \<Rightarrow> string \<Rightarrow> json \<Rightarrow> json" where
  "dict_get_default d k dflt = (case map_of d k of None \<Rightarrow> dflt | Some v \<Rightarrow> v)"

definition dict_get :: "(string \<times> json) list \<Rightarrow> string \<Rightarrow> json" where
  "dict_get d k = dict_get_default d k JNull"

subsection \<open>String operations\<close>

text \<open>Python's whitespace among the code points below 256, as \<^verbatim>\<open>str.strip\<close> uses it.\<close>

definition is_space :: "char \<Rightarrow> bool" where
  "is_space c = (let n = (of_char c :: nat) in
     (9 \<le> n \<and> n \<le> 13) \<or> (28 \<le> n \<and> n \<le> 32) \<or> n = 133 \<or> n = 160)"

definition lstrip :: "string \<Rightarrow> string" where
  "lstrip s = dropWhile is_space s"

definition rstrip :: "string \<Rightarrow> string" where
  "rstrip s = rev (dropWhile is_space (rev s))"

definition strip :: "string \<Rightarrow> string" where
  "strip s = rstrip (lstrip s)"

text \<open>\<^verbatim>\<open>s.rstrip("/")\<close>.\<close>

definition rstrip_slash :: "string \<Rightarrow> string" where
  "rstrip_slash s = rev (dropWhile (\<lambda>c. c = CHR ''/'') (rev s))"

text \<open>\<^verbatim>\<open>str.lower\<close> on the code points below 256: A to Z and the Latin-1 capitals.\<close>

definition lower_char :: "char \<Rightarrow> char" where
  "lower_char c = (let n = (of_char c :: nat) in
     if (65 \<le> n \<and> n \<le> 90) \<or> (192 \<le> n \<and> n \<le> 222 \<and> n \<noteq> 215)
     then char_of (n + 32) else c)"

definition lower :: "string \<Rightarrow> string" where
  "lower s = map lower_char s"

definition startswith :: "string \<Rightarrow> string \<Rightarrow> bool" where
  "startswith s p = (take (length p) s = p)"

text \<open>\<^verbatim>\<open>p in s\<close> for strings: \<open>p\<close> occurs in \<open>s\<close> as a contiguous run.\<close>

fun py_in :: "string \<Rightarrow> string \<Rightarrow> bool" where
  "py_in p [] = (p = [])"
| "py_in p (c # cs) = (startswith (c # cs) p \<or> py_in p cs)"

text \<open>\<^verbatim>\<open>str(n)\<close> for a natural number.\<close>

fun str_nat :: "nat \<Rightarrow> string" where
  "str_nat n = (if n < 10 then [char_of (48 + n)]
                else str_nat (n div 10) @ [char_of (48 + n mod 10)])"

declare str_nat.simps [simp del]

definition str_int :: "int \<Rightarrow> string" where
  "str_int i = (if i < 0 then CHR ''-'' # str_nat (nat (- i)) else str_nat (nat i))"

section \<open>The response classifier\<close>

definition attr_error :: "string \<Rightarrow> exn" where
  "attr_error a = AttributeError [Txt (''object has no attribute '' @ a)]"

text \<open>
  \<^verbatim>\<open>_looks_like_html(text)\<close>. A falsy argument gives False; a truthy argument that is
  not a string has no \<^verbatim>\<open>lstrip\<close>, and the call raises AttributeError.
\<close>

definition looks_like_html_str :: "string \<Rightarrow> bool" where
  "looks_like_html_str text =
     (let stripped = lower (lstrip text) in
        startswith stripped ''<!doctype html'' \<or> startswith stripped ''<html''
        \<or> py_in ''<html'' (take 200 stripped))"

definition looks_like_html :: "json \<Rightarrow> exn + bool" where
  "looks_like_html text =
     (if \<not> truthy text then Inr False
      else case text of
             JStr s \<Rightarrow> Inr (looks_like_html_str s)
           | _ \<Rightarrow> Inl (attr_error ''lstrip''))"

text \<open>\<^verbatim>\<open>_is_cloudflare_challenge(text)\<close>, with \<^verbatim>\<open>text.lower()\<close> on a truthy argument.\<close>

definition is_cloudflare_challenge_str :: "string \<Rightarrow> bool" where
  "is_cloudflare_challenge_str text =
     (let lowered = lower text in
        py_in ''cdn-cgi/challenge-platform'' lowered
        \<or> py_in ''_cf_chl_opt'' lowered
        \<or> py_in ''cf-chl'' lowered
        \<or> py_in ''enable javascript and cookies to continue'' lowered)"

definition is_cloudflare_challenge :: "json \<Rightarrow> exn + bool" where
  "is_cloudflare_challenge text =
     (if \<not> truthy text then Inr False
      else case text of
             JStr s \<Rightarrow> Inr (is_cloudflare_challenge_str s)
           | _ \<Rightarrow> Inl (attr_error ''lower''))"

text \<open>
  \<^verbatim>\<open>_simplify_error_text(text)\<close> returns the dict \<^verbatim>\<open>{message, code}\<close>, here a pair.
  The first test calls \<^verbatim>\<open>_looks_like_html\<close> before anything else looks at the type of
  \<open>text\<close>, so a truthy non-string raises there.
\<close>

definition simplify_error_text :: "json \<Rightarrow> exn + (message \<times> string option)" where
  "simplify_error_text text =
     (if \<not> truthy text then Inr ([Lit RequestFailed], None)
      else case looks_like_html text of
             Inl e \<Rightarrow> Inl e
           | Inr html \<Rightarrow>
              (case (if html then is_cloudflare_challenge text else Inr False) of
                 Inl e \<Rightarrow> Inl e
               | Inr True \<Rightarrow> Inr ([Lit CloudflareBlocked], Some ''cloudflare_challenge'')
               | Inr False \<Rightarrow>
                   if html then Inr ([Lit HtmlPage], Some ''html_response'')
                   else (case text of
                           JStr s \<Rightarrow>
                             (let trimmed = strip s in
                              if length trimmed > 2000
                              then Inr ([Txt (take 2000 trimmed @ ''...(''), Lit TruncatedSuffix, Txt '')''], None)
                              else Inr ([Txt trimmed], None))
                         | _ \<Rightarrow> Inl (attr_error ''strip''))))"

section \<open>The service object and its environment\<close>

text \<open>
  An HTTP session of the library (\<^verbatim>\<open>curl_cffi.requests.AsyncSession\<close>): the number of
  the constructor call that made it and the cookies set on it.
\<close>

record http_session =
  sid :: nat
  jar :: "(string \<times> string) list"

record request =
  req_method :: string
  req_url :: string
  req_headers :: "(string \<times> string) list"
  req_json :: "json option"

text \<open>
  A response as the executor reads it: \<^verbatim>\<open>status_code\<close>, the content-type header
  (None when absent), \<^verbatim>\<open>text\<close>, and the value of \<^verbatim>\<open>json()\<close>, None when decoding raises.
\<close>

record response =
  resp_status :: int
  resp_content_type :: "string option"
  resp_text :: string
  resp_json :: "json option"

datatype http_outcome = HttpResponse response | HttpRaise exn

text \<open>
  What one POST to the solver service comes to inside the \<^verbatim>\<open>try\<close> of
  \<^verbatim>\<open>_fetch_cf_cookies\<close>: status 200 with \<^verbatim>\<open>status == "ok"\<close>, giving the list of
  (name, value) cookies and the user agent of the solution; or anything else (another
  HTTP status, another solver status, any exception), all of which return False there.
\<close>

datatype solver_outcome = SolverOk "(string \<times> string) list" string | SolverFailed

text \<open>
  Modelled from the spec: \<^verbatim>\<open>settings_service.get_flaresolverr_config\<close> is not among the
  sources. It reads the enablement flag of the solver and its URL (the empty string
  when unset), and is the field \<open>flaresolverr_config\<close> below. The other fields are the
  rest of the outside world: the solver service, the constructor and the close of the
  HTTP library's session, the clock and the upstream server. Each is a function of how
  many calls of its kind were made before.
\<close>

record env =
  flaresolverr_config :: "nat \<Rightarrow> bool \<times> string"
  solver :: "nat \<Rightarrow> string \<Rightarrow> solver_outcome"
  session_ctor :: "nat \<Rightarrow> exn option"     \<comment> \<open>Some e: constructing the session raises e\<close>
  session_close :: "nat \<Rightarrow> exn option"    \<comment> \<open>Some e: closing a session raises e\<close>
  clock :: "nat \<Rightarrow> real"                  \<comment> \<open>time.time()\<close>
  http :: "nat \<Rightarrow> http_session \<Rightarrow> request \<Rightarrow> http_outcome"

text \<open>
  The four fields of the service object, followed by the record of what it did to the
  world: the numbers of calls made and, in order, the delays slept and the requests
  sent, each with the attempt index of the loop that sent it.
\<close>

record state =
  session :: "http_session option"
  cf_cookies :: "(string \<times> string) list option"
  cf_user_agent :: "string option"
  cf_cookies_time :: real
  n_config :: nat
  n_solver :: nat
  n_ctor :: nat
  n_close :: nat
  n_clock :: nat
  n_recover :: nat
  slept :: "nat list"
  sent :: "(nat \<times> request) list"

definition MAX_RETRIES :: nat where
  "MAX_RETRIES = 3"

definition RETRY_DELAYS :: "nat list" where
  "RETRY_DELAYS = [1, 2, 4]"

definition CF_COOKIE_TTL :: real where
  "CF_COOKIE_TTL = 1800"

definition BASE_URL :: string where
  "BASE_URL = ''https://chatgpt.com/backend-api''"

text \<open>The state of \<^verbatim>\<open>__init__\<close>, nothing done yet.\<close>

definition init :: state where
  "init = \<lparr>session = None, cf_cookies = None, cf_user_agent = None, cf_cookies_time = 0,
           n_config = 0, n_solver = 0, n_ctor = 0, n_close = 0, n_clock = 0,
           n_recover = 0, slept = [], sent = []\<rparr>"

section \<open>Challenge recovery agent\<close>

text \<open>The dict comprehension \<^verbatim>\<open>{c["name"]: c["value"] for c in cookies_list}\<close>.\<close>

definition dict_of :: "(string \<times> string) list \<Rightarrow> (string \<times> string) list" where
  "dict_of cs = fold (\<lambda>(k, v) d. AList.update k v d) cs []"

definition fetch_cf_cookies :: "env \<Rightarrow> state \<Rightarrow> bool \<times> state" where
  "fetch_cf_cookies e st =
     (let (enabled, url) = flaresolverr_config e (n_config st);
          st1 = st\<lparr>n_config := Suc (n_config st)\<rparr>
      in if \<not> enabled \<or> url = [] then (False, st1)
         else
           let flaresolverr_url = rstrip_slash url @ ''/v1'';
               st2 = st1\<lparr>n_solver := Suc (n_solver st1)\<rparr>
           in case solver e (n_solver st1) flaresolverr_url of
                SolverOk cookies_list user_agent \<Rightarrow>
                  (True, st2\<lparr>cf_cookies := Some (dict_of cookies_list),
                             cf_user_agent := (if user_agent = [] then None else Some user_agent),
                             cf_cookies_time := clock e (n_clock st2),
                             n_clock := Suc (n_clock st2)\<rparr>)
              | SolverFailed \<Rightarrow> (False, st2))"

text \<open>
  \<^verbatim>\<open>_cf_cookies_valid\<close>: \<^verbatim>\<open>bool(self._cf_cookies) and (time.time() - self._cf_cookies_time) < TTL\<close>.
  The clock is read only when the first conjunct holds.
\<close>

definition cookies_present :: "state \<Rightarrow> bool" where
  "cookies_present st = (case cf_cookies st of None \<Rightarrow> False | Some d \<Rightarrow> d \<noteq> [])"

definition cf_cookies_valid :: "env \<Rightarrow> state \<Rightarrow> bool \<times> state" where
  "cf_cookies_valid e st =
     (if cookies_present st
      then (clock e (n_clock st) - cf_cookies_time st < CF_COOKIE_TTL,
            st\<lparr>n_clock := Suc (n_clock st)\<rparr>)
      else (False, st))"

definition ensure_cf_cookies :: "env \<Rightarrow> state \<Rightarrow> state" where
  "ensure_cf_cookies e st =
     (case cf_cookies_valid e st of
        (True, st1) \<Rightarrow> st1
      | (False, st1) \<Rightarrow> snd (fetch_cf_cookies e st1))"

section \<open>Session manager\<close>

text \<open>
  \<^verbatim>\<open>_create_session\<close>: the constructor of the library (or setting a cookie) may raise;
  what was done before stays done.
\<close>

definition create_session :: "env \<Rightarrow> state \<Rightarrow> (exn + http_session) \<times> state" where
  "create_session e st =
     (let st1 = ensure_cf_cookies e st;
          st2 = st1\<lparr>n_ctor := Suc (n_ctor st1)\<rparr>
      in case session_ctor e (n_ctor st1) of
           Some x \<Rightarrow> (Inl x, st2)
         | None \<Rightarrow>
             (Inr \<lparr>sid = n_ctor st1,
                   jar = (case cf_cookies st1 of None \<Rightarrow> [] | Some d \<Rightarrow> d)\<rparr>, st2))"

text \<open>
  \<^verbatim>\<open>_try_cf_recovery\<close>: clears the cache, fetches again and, on success, closes the
  session (an error of the close is swallowed) and builds a new one.
\<close>

definition try_cf_recovery :: "env \<Rightarrow> state \<Rightarrow> (exn + bool) \<times> state" where
  "try_cf_recovery e st =
     (let st0 = st\<lparr>n_recover := Suc (n_recover st),
                   cf_cookies := None, cf_user_agent := None, cf_cookies_time := 0\<rparr>;
          (ok, st1) = fetch_cf_cookies e st0
      in if ok then
           let st2 = (case session st1 of
                        None \<Rightarrow> st1
                      | Some s \<Rightarrow> st1\<lparr>n_close := Suc (n_close st1), session := None\<rparr>)
           in case create_session e st2 of
                (Inl x, st3) \<Rightarrow> (Inl x, st3)
              | (Inr s, st3) \<Rightarrow> (Inr True, st3\<lparr>session := Some s\<rparr>)
         else (Inr False, st1))"

text \<open>
  \<^verbatim>\<open>close\<close>: the assignment \<^verbatim>\<open>self.session = None\<close> follows the awaited close of the
  session, inside the same \<^verbatim>\<open>if\<close>, with no \<^verbatim>\<open>try\<close> around it.
\<close>

definition close :: "env \<Rightarrow> state \<Rightarrow> (exn + unit) \<times> state" where
  "close e st =
     (case session st of
        None \<Rightarrow> (Inr (), st)
      | Some s \<Rightarrow>
          (let st1 = st\<lparr>n_close := Suc (n_close st)\<rparr>
           in case session_close e (n_close st) of
                Some x \<Rightarrow> (Inl x, st1)
              | None \<Rightarrow> (Inr (), st1\<lparr>session := None\<rparr>)))"

definition clear_session :: "env \<Rightarrow> state \<Rightarrow> (exn + unit) \<times> state" where
  "clear_session e st =
     close e (st\<lparr>cf_cookies := None, cf_user_agent := None, cf_cookies_time := 0\<rparr>)"

section \<open>The request executor\<close>

text \<open>
  The result envelope of \<^verbatim>\<open>_make_request\<close>. An absent \<^verbatim>\<open>error_code\<close> key and the value
  \<^verbatim>\<open>None\<close> are both \<open>JNull\<close> (the callers read the key with \<^verbatim>\<open>get\<close>).
\<close>

record envelope =
  success :: bool
  status_code :: int
  data :: json
  error :: "message option"
  error_code :: json

record args =
  http_method :: string
  url :: string
  headers :: "(string \<times> string) list"
  json_data :: "json option"
  db_session :: bool           \<comment> \<open>False: the argument is None\<close>

text \<open>How the body of one iteration of the retry loop ends.\<close>

datatype flow =
    Return envelope
  | Next bool                  \<comment> \<open>go on with the next attempt index; the new cf_retried\<close>

definition failure :: "int \<Rightarrow> message \<Rightarrow> json \<Rightarrow> envelope" where
  "failure sc msg code =
     \<lparr>success = False, status_code = sc, data = JNull, error = Some msg, error_code = code\<rparr>"

definition code_json :: "string option \<Rightarrow> json" where
  "code_json c = (case c of None \<Rightarrow> JNull | Some s \<Rightarrow> JStr s)"

text \<open>
  The block that the three branches share (lines 293 to 296, 331 to 334, 357 to 360),
  entered when a challenge was detected, \<^verbatim>\<open>cf_retried\<close> is False and \<^verbatim>\<open>db_session\<close> is
  given: \<open>Inr True\<close> is the \<^verbatim>\<open>continue\<close> with \<^verbatim>\<open>cf_retried = True\<close>, \<open>Inr False\<close> falls
  through to the code after the block.
\<close>

definition recover_block :: "env \<Rightarrow> bool \<Rightarrow> args \<Rightarrow> bool \<Rightarrow> state \<Rightarrow> (exn + bool) \<times> state" where
  "recover_block e challenge a cf_retried st =
     (if challenge \<and> \<not> cf_retried \<and> db_session a then try_cf_recovery e st
      else (Inr False, st))"

text \<open>Lines 254 to 305: a status in [200, 300).\<close>

definition handle_2xx ::
  "env \<Rightarrow> args \<Rightarrow> bool \<Rightarrow> response \<Rightarrow> state \<Rightarrow> (exn + flow) \<times> state" where
  "handle_2xx e a cf_retried r st =
     (let content_type = lower (case resp_content_type r of None \<Rightarrow> [] | Some c \<Rightarrow> c);
          is_json = py_in ''application/json'' content_type;
          decoded = (if is_json then resp_json r else resp_json r)
      in case decoded of
           Some d \<Rightarrow>
             (Inr (Return \<lparr>success = True, status_code = resp_status r, data = d,
                           error = None, error_code = JNull\<rparr>), st)
         | None \<Rightarrow>
             (case simplify_error_text (JStr (resp_text r)) of
                Inl x \<Rightarrow> (Inl x, st)
              | Inr (msg, code) \<Rightarrow>
                  (case recover_block e (code = Some ''cloudflare_challenge'') a cf_retried st of
                     (Inl x, st1) \<Rightarrow> (Inl x, st1)
                   | (Inr True, st1) \<Rightarrow> (Inr (Next True), st1)
                   | (Inr False, st1) \<Rightarrow>
                       (Inr (Return (failure (resp_status r) msg
                          (case code of None \<Rightarrow> JStr ''invalid_response'' | Some c \<Rightarrow> JStr c))),
                        st1))))"

text \<open>
  Lines 308 to 344: a status in [400, 500). The \<^verbatim>\<open>try\<close> decodes the body; when the
  decoding raises, or the decoded value is not a dict (it has no \<^verbatim>\<open>get\<close>), the handler
  takes the text of the response and \<^verbatim>\<open>error_code\<close> stays None. The value under
  \<^verbatim>\<open>detail\<close> goes to \<^verbatim>\<open>_simplify_error_text\<close> whatever its type.
\<close>

definition parse_4xx :: "response \<Rightarrow> json \<times> json" where
  "parse_4xx r =
     (case resp_json r of
        Some (JObj error_data) \<Rightarrow>
          (dict_get_default error_data ''detail'' (JStr (resp_text r)),
           (case dict_get error_data ''error'' of
              JObj error_info \<Rightarrow> dict_get error_info ''code''
            | _ \<Rightarrow> dict_get error_data ''code''))
      | _ \<Rightarrow> (JStr (resp_text r), JNull))"

definition handle_4xx ::
  "env \<Rightarrow> args \<Rightarrow> bool \<Rightarrow> response \<Rightarrow> state \<Rightarrow> (exn + flow) \<times> state" where
  "handle_4xx e a cf_retried r st =
     (let (error_msg, error_code0) = parse_4xx r
      in case simplify_error_text error_msg of
           Inl x \<Rightarrow> (Inl x, st)
         | Inr (msg, code) \<Rightarrow>
             (let error_code1 = (if truthy error_code0 then error_code0 else code_json code)
              in case recover_block e (code = Some ''cloudflare_challenge'') a cf_retried st of
                   (Inl x, st1) \<Rightarrow> (Inl x, st1)
                 | (Inr True, st1) \<Rightarrow> (Inr (Next True), st1)
                 | (Inr False, st1) \<Rightarrow>
                     (Inr (Return (failure (resp_status r) msg error_code1)), st1)))"

text \<open>
  The wait before the next attempt (lines 375 to 379, 393 to 397, 411 to 415), or
  the final envelope at the last attempt. The index of \<^verbatim>\<open>RETRY_DELAYS\<close> is below
  \<^verbatim>\<open>MAX_RETRIES - 1\<close>, inside the list.
\<close>

definition backoff :: "nat \<Rightarrow> bool \<Rightarrow> envelope \<Rightarrow> state \<Rightarrow> flow \<times> state" where
  "backoff attempt cf_retried final st =
     (if attempt < MAX_RETRIES - 1
      then (Next cf_retried, st\<lparr>slept := slept st @ [RETRY_DELAYS ! attempt]\<rparr>)
      else (Return final, st))"

definition server_error_final :: "int \<Rightarrow> envelope" where
  "server_error_final sc =
     failure sc [Lit ServerErrorPrefix, Txt (str_int sc), Lit RetriedInfix,
                 Txt (str_nat MAX_RETRIES), Lit TimesSuffix] JNull"

definition timeout_final :: envelope where
  "timeout_final =
     failure 0 [Lit TimeoutRetriedPrefix, Txt (str_nat MAX_RETRIES), Lit TimesSuffix] JNull"

definition exception_final :: "exn \<Rightarrow> envelope" where
  "exception_final x = failure 0 (Lit RequestExceptionPrefix # exn_str x) JNull"

definition unknown_final :: envelope where
  "unknown_final = failure 0 [Lit UnknownError] JNull"

text \<open>Lines 347 to 387: a status of 500 or more.\<close>

definition handle_5xx ::
  "env \<Rightarrow> args \<Rightarrow> nat \<Rightarrow> bool \<Rightarrow> response \<Rightarrow> state \<Rightarrow> (exn + flow) \<times> state" where
  "handle_5xx e a attempt cf_retried r st =
     (let body_text = resp_text r
      in if looks_like_html_str body_text \<and> is_cloudflare_challenge_str body_text
         then
           (case recover_block e True a cf_retried st of
              (Inl x, st1) \<Rightarrow> (Inl x, st1)
            | (Inr True, st1) \<Rightarrow> (Inr (Next True), st1)
            | (Inr False, st1) \<Rightarrow>
                (case simplify_error_text (JStr body_text) of
                   Inl x \<Rightarrow> (Inl x, st1)
                 | Inr (msg, code) \<Rightarrow>
                     (Inr (Return (failure (resp_status r) msg
                        (case code of None \<Rightarrow> JStr ''cloudflare_challenge'' | Some c \<Rightarrow> JStr c))),
                      st1)))
         else
           (case backoff attempt cf_retried (server_error_final (resp_status r)) st of
              (fl, st1) \<Rightarrow> (Inr fl, st1)))"

text \<open>
  Lines 236 to 248: the headers of the attempt and the choice of the call by the
  method. An unsupported method raises ValueError before the session is touched.
\<close>

definition build_request :: "args \<Rightarrow> state \<Rightarrow> exn + request" where
  "build_request a st =
     (let request_headers =
            (case cf_user_agent st of
               None \<Rightarrow> headers a
             | Some ua \<Rightarrow> if ua = [] then headers a
                          else AList.update ''User-Agent'' ua (headers a))
      in if http_method a = ''GET''
         then Inr \<lparr>req_method = http_method a, req_url = url a,
                   req_headers = request_headers, req_json = None\<rparr>
         else if http_method a = ''POST'' \<or> http_method a = ''DELETE''
         then Inr \<lparr>req_method = http_method a, req_url = url a,
                   req_headers = request_headers, req_json = json_data a\<rparr>
         else Inl (ValueError [Lit UnsupportedMethod, Txt (http_method a)]))"

text \<open>
  The call of the session: with no session, \<^verbatim>\<open>self.session.get\<close> raises
  AttributeError; otherwise the request goes out and the world answers.
\<close>

definition send_request :: "env \<Rightarrow> args \<Rightarrow> nat \<Rightarrow> state \<Rightarrow> (exn + response) \<times> state" where
  "send_request e a attempt st =
     (case build_request a st of
        Inl x \<Rightarrow> (Inl x, st)
      | Inr rq \<Rightarrow>
          (case session st of
             None \<Rightarrow> (Inl (attr_error (lower (http_method a))), st)
           | Some s \<Rightarrow>
               (let st1 = st\<lparr>sent := sent st @ [(attempt, rq)]\<rparr>
                in case http e (length (sent st)) s rq of
                     HttpResponse r \<Rightarrow> (Inr r, st1)
                   | HttpRaise x \<Rightarrow> (Inl x, st1))))"

text \<open>
  The body of the \<^verbatim>\<open>try\<close>, lines 233 to 387. A status outside the three ranges
  matches no branch, and the loop goes to its next index without waiting.
\<close>

definition try_body :: "env \<Rightarrow> args \<Rightarrow> nat \<Rightarrow> bool \<Rightarrow> state \<Rightarrow> (exn + flow) \<times> state" where
  "try_body e a attempt cf_retried st =
     (case send_request e a attempt st of
        (Inl x, st1) \<Rightarrow> (Inl x, st1)
      | (Inr r, st1) \<Rightarrow>
          (let sc = resp_status r
           in if 200 \<le> sc \<and> sc < 300 then handle_2xx e a cf_retried r st1
              else if 400 \<le> sc \<and> sc < 500 then handle_4xx e a cf_retried r st1
              else if sc \<ge> 500 then handle_5xx e a attempt cf_retried r st1
              else (Inr (Next cf_retried), st1)))"

text \<open>One iteration: the \<^verbatim>\<open>try\<close> with its two handlers (lines 389 and 407).\<close>

definition iteration :: "env \<Rightarrow> args \<Rightarrow> nat \<Rightarrow> bool \<Rightarrow> state \<Rightarrow> flow \<times> state" where
  "iteration e a attempt cf_retried st =
     (case try_body e a attempt cf_retried st of
        (Inr fl, st1) \<Rightarrow> (fl, st1)
      | (Inl TimeoutError, st1) \<Rightarrow> backoff attempt cf_retried timeout_final st1
      | (Inl x, st1) \<Rightarrow> backoff attempt cf_retried (exception_final x) st1)"

text \<open>
  \<^verbatim>\<open>for attempt in range(self.MAX_RETRIES)\<close>: the indices still to run. \<^verbatim>\<open>continue\<close>
  takes the next index of the range; after the last index the loop ends and line 426
  returns.
\<close>

fun retry_loop :: "env \<Rightarrow> args \<Rightarrow> nat list \<Rightarrow> bool \<Rightarrow> state \<Rightarrow> envelope \<times> state" where
  "retry_loop e a [] cf_retried st = (unknown_final, st)"
| "retry_loop e a (attempt # rest) cf_retried st =
     (case iteration e a attempt cf_retried st of
        (Return r, st1) \<Rightarrow> (r, st1)
      | (Next cf, st1) \<Rightarrow> retry_loop e a rest cf st1)"

text \<open>
  \<^verbatim>\<open>_make_request\<close>: the session is created before the loop, outside its \<^verbatim>\<open>try\<close>, so
  an exception of \<^verbatim>\<open>_create_session\<close> there leaves the function.
\<close>

definition make_request :: "env \<Rightarrow> args \<Rightarrow> state \<Rightarrow> (exn + envelope) \<times> state" where
  "make_request e a st =
     (case (case session st of
              Some s \<Rightarrow> (Inr (), st)
            | None \<Rightarrow>
                (case create_session e st of
                   (Inl x, st1) \<Rightarrow> (Inl x, st1)
                 | (Inr s, st1) \<Rightarrow> (Inr (), st1\<lparr>session := Some s\<rparr>))) of
        (Inl x, st1) \<Rightarrow> (Inl x, st1)
      | (Inr u, st1) \<Rightarrow>
          (case retry_loop e a [0..<MAX_RETRIES] False st1 of
             (r, st2) \<Rightarrow> (Inr r, st2)))"

section \<open>Listing the members of a team\<close>

record members_result =
  m_success :: bool
  members :: "json list"
  m_total :: nat
  m_error :: "message option"
  m_error_code :: json

text \<open>\<^verbatim>\<open>all_members.extend(items)\<close>: a list, a string or the keys of a dict; nothing else iterates.\<close>

definition extend :: "json list \<Rightarrow> json \<Rightarrow> exn + json list" where
  "extend all_members items =
     (case items of
        JArr xs \<Rightarrow> Inr (all_members @ xs)
      | JStr s \<Rightarrow> Inr (all_members @ map (\<lambda>c. JStr [c]) s)
      | JObj d \<Rightarrow> Inr (all_members @ map (\<lambda>kv. JStr (fst kv)) d)
      | _ \<Rightarrow> Inl (TypeError [Txt ''object is not iterable'']))"

text \<open>\<^verbatim>\<open>len(all_members) >= total\<close>: an integer (or a bool) compares, the rest raises.\<close>

definition reached :: "nat \<Rightarrow> json \<Rightarrow> exn + bool" where
  "reached n t =
     (case t of
        JInt k \<Rightarrow> Inr (int n \<ge> k)
      | JBool b \<Rightarrow> Inr (int n \<ge> (if b then 1 else 0))
      | _ \<Rightarrow> Inl (TypeError [Txt ''>= not supported'']))"

definition members_url :: "string \<Rightarrow> nat \<Rightarrow> nat \<Rightarrow> string" where
  "members_url account_id limit offset =
     BASE_URL @ ''/accounts/'' @ account_id @ ''/users?limit='' @ str_nat limit
       @ ''&offset='' @ str_nat offset"

text \<open>
  The \<^verbatim>\<open>while True\<close> loop of \<^verbatim>\<open>get_members\<close> (lines 501 to 532). Nothing bounds it in
  the source; the first argument counts the iterations still allowed, and None says
  that they did not suffice.
\<close>

fun get_members_loop ::
  "nat \<Rightarrow> env \<Rightarrow> string \<Rightarrow> string \<Rightarrow> bool \<Rightarrow> json list \<Rightarrow> nat \<Rightarrow> state
     \<Rightarrow> ((exn + members_result) \<times> state) option" where
  "get_members_loop 0 e access_token account_id db all_members offset st = None"
| "get_members_loop (Suc fuel) e access_token account_id db all_members offset st =
     (let limit = 50;
          a = \<lparr>http_method = ''GET'', url = members_url account_id limit offset,
               headers = [(''Authorization'', ''Bearer '' @ access_token)],
               json_data = None, db_session = db\<rparr>
      in case make_request e a st of
           (Inl x, st1) \<Rightarrow> Some (Inl x, st1)
         | (Inr result, st1) \<Rightarrow>
             if \<not> success result
             then Some (Inr \<lparr>m_success = False, members = [], m_total = 0,
                             m_error = error result, m_error_code = error_code result\<rparr>, st1)
             else
               (case data result of
                  JObj d \<Rightarrow>
                    (case extend all_members (dict_get_default d ''items'' (JArr [])) of
                       Inl x \<Rightarrow> Some (Inl x, st1)
                     | Inr all_members1 \<Rightarrow>
                         (case reached (length all_members1) (dict_get_default d ''total'' (JInt 0)) of
                            Inl x \<Rightarrow> Some (Inl x, st1)
                          | Inr True \<Rightarrow>
                              Some (Inr \<lparr>m_success = True, members = all_members1,
                                         m_total = length all_members1,
                                         m_error = None, m_error_code = JNull\<rparr>, st1)
                          | Inr False \<Rightarrow>
                              get_members_loop fuel e access_token account_id db
                                all_members1 (offset + limit) st1))
                | _ \<Rightarrow> Some (Inl (attr_error ''get''), st1)))"

definition get_members ::
  "nat \<Rightarrow> env \<Rightarrow> string \<Rightarrow> string \<Rightarrow> bool \<Rightarrow> state
     \<Rightarrow> ((exn + members_result) \<times> state) option" where
  "get_members fuel e access_token account_id db st =
     get_members_loop fuel e access_token account_id db [] 0 st"

section \<open>Notions used to state the claims\<close>

text \<open>
  How many challenge recoveries a call can still start: none once \<^verbatim>\<open>cf_retried\<close> is set,
  and none without a session, since every attempt then raises before any response is
  read.
\<close>

definition recoveries_left :: "bool \<Rightarrow> state \<Rightarrow> nat" where
  "recoveries_left cf_retried st = (if cf_retried \<or> session st = None then 0 else 1)"

subsection \<open>Concrete worlds and states\<close>

text \<open>A world whose solver is configured and clears the challenge; the clock stands at 5000.\<close>

definition env_ok :: env where
  "env_ok = \<lparr>flaresolverr_config = (\<lambda>n. (True, ''http://solver:8191/'')),
             solver = (\<lambda>n u. SolverOk [(''cf_clearance'', ''abc'')] ''Mozilla/5.0''),
             session_ctor = (\<lambda>n. None),
             session_close = (\<lambda>n. None),
             clock = (\<lambda>n. 5000),
             http = (\<lambda>n s rq. HttpRaise TimeoutError)\<rparr>"


text \<open>A world in which closing a session raises, and a service object with an open session.\<close>

definition env_close_fails :: env where
  "env_close_fails = \<lparr>flaresolverr_config = (\<lambda>n. (False, [])),
             solver = (\<lambda>n u. SolverFailed),
             session_ctor = (\<lambda>n. None),
             session_close = (\<lambda>n. Some (OtherError [Txt ''connection lost''])),
             clock = (\<lambda>n. 0),
             http = (\<lambda>n s rq. HttpRaise TimeoutError)\<rparr>"

definition st_open :: state where
  "st_open = init\<lparr>session := Some \<lparr>sid = 0, jar = []\<rparr>, n_ctor := 1\<rparr>"

text \<open>The same after the body of an attempt, by how the body ended.\<close>

definition flow_left :: "bool \<Rightarrow> exn + flow \<Rightarrow> state \<Rightarrow> nat" where
  "flow_left cf_retried res st =
     (case res of
        Inl x \<Rightarrow> recoveries_left cf_retried st
      | Inr (Return r) \<Rightarrow> 0
      | Inr (Next cf) \<Rightarrow> recoveries_left cf st)"

text \<open>A Cloudflare challenge page, and responses carrying a body that is not JSON.\<close>

definition challenge_page :: string where
  "challenge_page =
     ''<!DOCTYPE html><html><script src=/cdn-cgi/challenge-platform/x.js></script></html>''"

definition html_response :: "int \<Rightarrow> string \<Rightarrow> response" where
  "html_response sc body =
     \<lparr>resp_status = sc, resp_content_type = Some ''text/html; charset=UTF-8'',
      resp_text = body, resp_json = None\<rparr>"

definition args_get :: args where
  "args_get = \<lparr>http_method = ''GET'', url = BASE_URL @ ''/accounts/acc/invites'',
               headers = [(''Authorization'', ''Bearer tok'')], json_data = None,
               db_session = True\<rparr>"

text \<open>Every request is answered by a 403 with the challenge page; the solver works.\<close>

definition env_challenge :: env where
  "env_challenge =
     env_ok\<lparr>http := (\<lambda>n s rq. HttpResponse (html_response 403 challenge_page))\<rparr>"




text \<open>
  Every request is answered by a 401 whose JSON body has an object under \<^verbatim>\<open>detail\<close>,
  the shape of the upstream's error for an expired token.
\<close>

definition expired_token :: response where
  \<open>expired_token =
     \<lparr>resp_status = 401, resp_content_type = Some ''application/json'',
      resp_text = ''{"detail": {"message": "token expired", "code": "token_expired"}}'',
      resp_json = Some (JObj [(''detail'',
         JObj [(''message'', JStr ''token expired''), (''code'', JStr ''token_expired'')])])\<rparr>\<close>

definition env_401 :: env where
  "env_401 = env_ok\<lparr>http := (\<lambda>n s rq. HttpResponse expired_token)\<rparr>"



text \<open>A world in which the constructor of the session raises.\<close>

definition env_ctor_fails :: env where
  "env_ctor_fails = env_ok\<lparr>session_ctor := (\<lambda>n. Some (OtherError [Txt ''impersonate'']))\<rparr>"

definition args_patch :: args where
  "args_patch = args_get\<lparr>http_method := ''PATCH''\<rparr>"





text \<open>The request that \<open>args_get\<close> sends while no user agent is cached.\<close>

definition get_invites_request :: request where
  "get_invites_request =
     \<lparr>req_method = ''GET'', req_url = BASE_URL @ ''/accounts/acc/invites'',
      req_headers = [(''Authorization'', ''Bearer tok'')], req_json = None\<rparr>"



text \<open>
  A page of the member list: a 200 whose JSON body holds \<^verbatim>\<open>items\<close> and \<^verbatim>\<open>total\<close>; \<open>txt\<close>
  is the text of the body. The members of the examples are numbers, and \<open>ids_body\<close>
  writes the body of such a page.
\<close>

definition page :: "string \<Rightarrow> json list \<Rightarrow> int \<Rightarrow> response" where
  "page txt items t =
     \<lparr>resp_status = 200, resp_content_type = Some ''application/json'', resp_text = txt,
      resp_json = Some (JObj [(''items'', JArr items), (''total'', JInt t)])\<rparr>"

fun comma_sep :: "string list \<Rightarrow> string" where
  "comma_sep [] = []"
| "comma_sep [x] = x"
| "comma_sep (x # y # ys) = x @ '', '' @ comma_sep (y # ys)"

definition ids :: "nat \<Rightarrow> nat \<Rightarrow> json list" where
  "ids i j = map (\<lambda>k. JInt (int k)) [i..<j]"

definition ids_body :: "nat \<Rightarrow> nat \<Rightarrow> int \<Rightarrow> string" where
  \<open>ids_body i j t =
     ''{"items": ['' @ comma_sep (map str_nat [i..<j]) @ ''], "total": '' @ str_int t @ ''}''\<close>

definition ids_page :: "nat \<Rightarrow> nat \<Rightarrow> int \<Rightarrow> response" where
  "ids_page i j t = page (ids_body i j t) (ids i j) t"

text \<open>
  The server of C7: 120 members, 50 at the offsets 0 and 50, 20 at the offset 100,
  each page reporting the total 120; any other request is a 404.
\<close>

definition env_members :: env where
  "env_members =
     env_ok\<lparr>http := (\<lambda>n s rq.
        if req_url rq = members_url ''acc'' 50 0 then HttpResponse (ids_page 0 50 120)
        else if req_url rq = members_url ''acc'' 50 50 then HttpResponse (ids_page 50 100 120)
        else if req_url rq = members_url ''acc'' 50 100 then HttpResponse (ids_page 100 120 120)
        else HttpResponse (html_response 404 ''not found''))\<rparr>"

text \<open>
  A server whose first page holds two members and reports the total 5, and whose
  second page holds one member and reports the total 3.
\<close>

definition env_members_short :: env where
  "env_members_short =
     env_ok\<lparr>http := (\<lambda>n s rq.
        if req_url rq = members_url ''acc'' 50 0 then HttpResponse (ids_page 0 2 5)
        else if req_url rq = members_url ''acc'' 50 50 then HttpResponse (ids_page 2 3 3)
        else HttpResponse (html_response 404 ''not found''))\<rparr>"

text \<open>The envelope of a success, and the attempt index and URL of every request sent.\<close>

definition ok_envelope :: "int \<Rightarrow> json \<Rightarrow> envelope" where
  "ok_envelope sc d =
     \<lparr>success = True, status_code = sc, data = d, error = None, error_code = JNull\<rparr>"

definition urls_sent :: "state \<Rightarrow> (nat \<times> string) list" where
  "urls_sent st = map (\<lambda>x. (fst x, req_url (snd x))) (sent st)"

section \<open>Auxiliary facts\<close>

lemma range3: "[0..<MAX_RETRIES] = [0, 1, 2]"
  by (simp add: MAX_RETRIES_def upt_rec)

lemma fetch_frame:
  "session (snd (fetch_cf_cookies e st)) = session st"
  "n_recover (snd (fetch_cf_cookies e st)) = n_recover st"
  "sent (snd (fetch_cf_cookies e st)) = sent st"
  "slept (snd (fetch_cf_cookies e st)) = slept st"
  "n_ctor (snd (fetch_cf_cookies e st)) = n_ctor st"
  by (simp_all add: fetch_cf_cookies_def Let_def split: prod.splits solver_outcome.splits)

lemma valid_frame:
  "session (snd (cf_cookies_valid e st)) = session st"
  "n_recover (snd (cf_cookies_valid e st)) = n_recover st"
  "sent (snd (cf_cookies_valid e st)) = sent st"
  "slept (snd (cf_cookies_valid e st)) = slept st"
  "n_ctor (snd (cf_cookies_valid e st)) = n_ctor st"
  by (simp_all add: cf_cookies_valid_def)

lemma ensure_frame:
  "session (ensure_cf_cookies e st) = session st"
  "n_recover (ensure_cf_cookies e st) = n_recover st"
  "sent (ensure_cf_cookies e st) = sent st"
  "slept (ensure_cf_cookies e st) = slept st"
  "n_ctor (ensure_cf_cookies e st) = n_ctor st"
proof -
  obtain v st1 where c: "cf_cookies_valid e st = (v, st1)"
    by (cases "cf_cookies_valid e st")
  have st1: "session st1 = session st" "n_recover st1 = n_recover st" "sent st1 = sent st"
    "slept st1 = slept st" "n_ctor st1 = n_ctor st"
    using valid_frame [of e st] c by simp_all
  have r: "ensure_cf_cookies e st = (if v then st1 else snd (fetch_cf_cookies e st1))"
    by (simp add: ensure_cf_cookies_def c)
  show "session (ensure_cf_cookies e st) = session st"
    by (simp add: r st1 fetch_frame)
  show "n_recover (ensure_cf_cookies e st) = n_recover st"
    by (simp add: r st1 fetch_frame)
  show "sent (ensure_cf_cookies e st) = sent st"
    by (simp add: r st1 fetch_frame)
  show "slept (ensure_cf_cookies e st) = slept st"
    by (simp add: r st1 fetch_frame)
  show "n_ctor (ensure_cf_cookies e st) = n_ctor st"
    by (simp add: r st1 fetch_frame)
qed

lemma create_frame:
  "session (snd (create_session e st)) = session st"
  "n_recover (snd (create_session e st)) = n_recover st"
  "sent (snd (create_session e st)) = sent st"
  "slept (snd (create_session e st)) = slept st"
  by (simp_all add: create_session_def Let_def ensure_frame split: option.splits)

lemma recovery_frame:
  "n_recover (snd (try_cf_recovery e st)) = Suc (n_recover st)"
  "sent (snd (try_cf_recovery e st)) = sent st"
  "slept (snd (try_cf_recovery e st)) = slept st"
proof -
  obtain ok st1 where f: "fetch_cf_cookies e
      (st\<lparr>n_recover := Suc (n_recover st), cf_cookies := None, cf_user_agent := None,
          cf_cookies_time := 0\<rparr>) = (ok, st1)"
    by (cases "fetch_cf_cookies e
      (st\<lparr>n_recover := Suc (n_recover st), cf_cookies := None, cf_user_agent := None,
          cf_cookies_time := 0\<rparr>)")
  have st1: "n_recover st1 = Suc (n_recover st)" "sent st1 = sent st" "slept st1 = slept st"
    using fetch_frame(2,3,4) [of e "st\<lparr>n_recover := Suc (n_recover st), cf_cookies := None,
      cf_user_agent := None, cf_cookies_time := 0\<rparr>"] f by simp_all
  define st2 where "st2 = (case session st1 of None \<Rightarrow> st1
                      | Some s \<Rightarrow> st1\<lparr>n_close := Suc (n_close st1), session := None\<rparr>)"
  have st2: "n_recover st2 = Suc (n_recover st)" "sent st2 = sent st" "slept st2 = slept st"
    using st1 by (simp_all add: st2_def split: option.splits)
  have r: "try_cf_recovery e st =
     (if ok then (case create_session e st2 of
                (Inl x, st3) \<Rightarrow> (Inl x, st3)
              | (Inr s, st3) \<Rightarrow> (Inr True, st3\<lparr>session := Some s\<rparr>))
      else (Inr False, st1))"
    by (simp add: try_cf_recovery_def Let_def f st2_def)
  show "n_recover (snd (try_cf_recovery e st)) = Suc (n_recover st)"
    using create_frame(2) [of e st2] st1 st2 by (auto simp add: r split: prod.splits sum.splits)
  show "sent (snd (try_cf_recovery e st)) = sent st"
    using create_frame(3) [of e st2] st1 st2 by (auto simp add: r split: prod.splits sum.splits)
  show "slept (snd (try_cf_recovery e st)) = slept st"
    using create_frame(4) [of e st2] st1 st2 by (auto simp add: r split: prod.splits sum.splits)
qed

lemma recovery_raise_no_session:
  assumes "try_cf_recovery e st = (Inl x, st')"
  shows "session st' = None"
proof -
  obtain ok st1 where f: "fetch_cf_cookies e
      (st\<lparr>n_recover := Suc (n_recover st), cf_cookies := None, cf_user_agent := None,
          cf_cookies_time := 0\<rparr>) = (ok, st1)"
    by (cases "fetch_cf_cookies e
      (st\<lparr>n_recover := Suc (n_recover st), cf_cookies := None, cf_user_agent := None,
          cf_cookies_time := 0\<rparr>)")
  define st2 where "st2 = (case session st1 of None \<Rightarrow> st1
                      | Some s \<Rightarrow> st1\<lparr>n_close := Suc (n_close st1), session := None\<rparr>)"
  have st2: "session st2 = None"
    by (simp add: st2_def split: option.splits)
  have r: "try_cf_recovery e st =
     (if ok then (case create_session e st2 of
                (Inl x, st3) \<Rightarrow> (Inl x, st3)
              | (Inr s, st3) \<Rightarrow> (Inr True, st3\<lparr>session := Some s\<rparr>))
      else (Inr False, st1))"
    by (simp add: try_cf_recovery_def Let_def f st2_def)
  show ?thesis
    using assms create_frame(1) [of e st2] st2
    by (auto simp add: r split: prod.splits sum.splits if_splits)
qed

lemma recover_block_cases:
  assumes "recover_block e ch a cf st = (res, st')"
  shows "(res = Inr False \<and> st' = st)
       \<or> (ch \<and> \<not> cf \<and> db_session a \<and> try_cf_recovery e st = (res, st'))"
  using assms by (auto simp add: recover_block_def split: if_splits)

lemma recover_block_left:
  assumes "recover_block e ch a cf st = (res, st')" "session st \<noteq> None"
  shows "n_recover st' + (case res of Inl x \<Rightarrow> recoveries_left cf st' | Inr b \<Rightarrow> 0)
           \<le> n_recover st + recoveries_left cf st"
    and "sent st' = sent st" and "slept st' = slept st"
proof -
  from recover_block_cases [OF assms(1)]
  show "n_recover st' + (case res of Inl x \<Rightarrow> recoveries_left cf st' | Inr b \<Rightarrow> 0)
           \<le> n_recover st + recoveries_left cf st"
  proof
    assume "res = Inr False \<and> st' = st"
    then show ?thesis by simp
  next
    assume h: "ch \<and> \<not> cf \<and> db_session a \<and> try_cf_recovery e st = (res, st')"
    then have n: "n_recover st' = Suc (n_recover st)"
      using recovery_frame(1) [of e st] by simp
    show ?thesis
    proof (cases res)
      case (Inl x)
      then have "session st' = None" using h recovery_raise_no_session by blast
      then show ?thesis using n Inl h assms(2) by (simp add: recoveries_left_def)
    next
      case (Inr b)
      then show ?thesis using n h assms(2) by (simp add: recoveries_left_def)
    qed
  qed
  from recover_block_cases [OF assms(1)]
  show "sent st' = sent st"
    using recovery_frame(2) [of e st] by auto
  from recover_block_cases [OF assms(1)]
  show "slept st' = slept st"
    using recovery_frame(3) [of e st] by auto
qed

lemma after_recover_block:
  assumes rb: "recover_block e ch a cf st = (res0, st0)" and s: "session st \<noteq> None"
    and out: "(res, st') = (case res0 of Inl x \<Rightarrow> (Inl x, st0)
                 | Inr True \<Rightarrow> (Inr (Next True), st0)
                 | Inr False \<Rightarrow> (Inr (Return r), st0))"
  shows "n_recover st' + flow_left cf res st' \<le> n_recover st + recoveries_left cf st"
    and "sent st' = sent st" and "slept st' = slept st"
proof -
  note l = recover_block_left [OF rb s]
  show "n_recover st' + flow_left cf res st' \<le> n_recover st + recoveries_left cf st"
    using l(1) out
    by (cases res0) (auto simp add: flow_left_def recoveries_left_def split: bool.splits if_splits)
  show "sent st' = sent st" using l(2) out by (cases res0) (auto split: bool.splits)
  show "slept st' = slept st" using l(3) out by (cases res0) (auto split: bool.splits)
qed

lemma simplify_str_no_raise: "simplify_error_text (JStr s) \<noteq> Inl x"
  by (simp add: simplify_error_text_def looks_like_html_def is_cloudflare_challenge_def Let_def
        split: sum.splits bool.splits)

lemma handle_2xx_left:
  assumes h: "handle_2xx e a cf r st = (res, st')" and s: "session st \<noteq> None"
  shows "n_recover st' + flow_left cf res st' \<le> n_recover st + recoveries_left cf st
         \<and> sent st' = sent st \<and> slept st' = slept st"
proof (cases "resp_json r")
  case (Some d)
  then show ?thesis using h by (auto simp add: handle_2xx_def flow_left_def)
next
  case None
  show ?thesis
  proof (cases "simplify_error_text (JStr (resp_text r))")
    case (Inl x)
    then show ?thesis using h None by (auto simp add: handle_2xx_def flow_left_def)
  next
    case (Inr mc)
    obtain msg code where mc: "mc = (msg, code)" by (cases mc)
    obtain res0 st0 where rb:
      "recover_block e (code = Some ''cloudflare_challenge'') a cf st = (res0, st0)"
      by (cases "recover_block e (code = Some ''cloudflare_challenge'') a cf st")
    have out: "(res, st') = (case res0 of Inl x \<Rightarrow> (Inl x, st0)
                 | Inr True \<Rightarrow> (Inr (Next True), st0)
                 | Inr False \<Rightarrow> (Inr (Return (failure (resp_status r) msg
                     (case code of None \<Rightarrow> JStr ''invalid_response'' | Some c \<Rightarrow> JStr c))), st0))"
      using h None Inr mc rb by (simp add: handle_2xx_def split: sum.splits bool.splits)
    show ?thesis
      using after_recover_block [OF rb s out] by simp
  qed
qed

lemma handle_4xx_left:
  assumes h: "handle_4xx e a cf r st = (res, st')" and s: "session st \<noteq> None"
  shows "n_recover st' + flow_left cf res st' \<le> n_recover st + recoveries_left cf st
         \<and> sent st' = sent st \<and> slept st' = slept st"
proof -
  obtain error_msg error_code0 where p: "parse_4xx r = (error_msg, error_code0)"
    by (cases "parse_4xx r")
  show ?thesis
  proof (cases "simplify_error_text error_msg")
    case (Inl x)
    then show ?thesis using h p by (auto simp add: handle_4xx_def flow_left_def)
  next
    case (Inr mc)
    obtain msg code where mc: "mc = (msg, code)" by (cases mc)
    obtain res0 st0 where rb:
      "recover_block e (code = Some ''cloudflare_challenge'') a cf st = (res0, st0)"
      by (cases "recover_block e (code = Some ''cloudflare_challenge'') a cf st")
    have out: "(res, st') = (case res0 of Inl x \<Rightarrow> (Inl x, st0)
                 | Inr True \<Rightarrow> (Inr (Next True), st0)
                 | Inr False \<Rightarrow> (Inr (Return (failure (resp_status r) msg
                     (if truthy error_code0 then error_code0 else code_json code))), st0))"
      using h p Inr mc rb by (simp add: handle_4xx_def Let_def split: sum.splits bool.splits)
    show ?thesis
      using after_recover_block [OF rb s out] by simp
  qed
qed

lemma backoff_cases:
  assumes "backoff i cf fin st = (fl, st')"
  shows "(fl = Return fin \<and> st' = st \<and> \<not> i < 2)
       \<or> (fl = Next cf \<and> i < 2 \<and> st' = st\<lparr>slept := slept st @ [RETRY_DELAYS ! i]\<rparr>)"
  using assms by (auto simp add: backoff_def MAX_RETRIES_def split: if_splits)

lemma handle_5xx_left:
  assumes h: "handle_5xx e a i cf r st = (res, st')" and s: "session st \<noteq> None"
  shows "n_recover st' + flow_left cf res st' \<le> n_recover st + recoveries_left cf st
         \<and> sent st' = sent st
         \<and> (slept st' = slept st
             \<or> (i < 2 \<and> slept st' = slept st @ [RETRY_DELAYS ! i] \<and> res = Inr (Next cf)))"
proof (cases "looks_like_html_str (resp_text r) \<and> is_cloudflare_challenge_str (resp_text r)")
  case True
  obtain res0 st0 where rb: "recover_block e True a cf st = (res0, st0)"
    by (cases "recover_block e True a cf st")
  show ?thesis
  proof (cases "simplify_error_text (JStr (resp_text r))")
    case (Inl x)
    then show ?thesis using simplify_str_no_raise by blast
  next
    case (Inr mc)
    obtain msg code where mc: "mc = (msg, code)" by (cases mc)
    have out: "(res, st') = (case res0 of Inl x \<Rightarrow> (Inl x, st0)
                 | Inr True \<Rightarrow> (Inr (Next True), st0)
                 | Inr False \<Rightarrow> (Inr (Return (failure (resp_status r) msg
                     (case code of None \<Rightarrow> JStr ''cloudflare_challenge'' | Some c \<Rightarrow> JStr c))), st0))"
      using h True rb Inr mc by (simp add: handle_5xx_def split: sum.splits bool.splits)
    show ?thesis
      using after_recover_block [OF rb s out] by simp
  qed
next
  case False
  obtain fl st1 where b: "backoff i cf (server_error_final (resp_status r)) st = (fl, st1)"
    by (cases "backoff i cf (server_error_final (resp_status r)) st")
  have "res = Inr fl \<and> st' = st1"
    using h False b by (auto simp add: handle_5xx_def)
  then show ?thesis
    using backoff_cases [OF b] by (auto simp add: flow_left_def recoveries_left_def)
qed

lemma send_request_cases:
  assumes "send_request e a i st = (res, st')"
  shows "session st' = session st \<and> n_recover st' = n_recover st \<and> slept st' = slept st
       \<and> cf_user_agent st' = cf_user_agent st
       \<and> (sent st' = sent st \<or> (\<exists>rq. sent st' = sent st @ [(i, rq)]))
       \<and> (\<forall>r. res = Inr r \<longrightarrow> session st \<noteq> None)"
  using assms
  by (auto simp add: send_request_def Let_def split: sum.splits option.splits http_outcome.splits)

lemma try_body_left:
  assumes h: "try_body e a i cf st = (res, st')"
  shows "n_recover st' + flow_left cf res st' \<le> n_recover st + recoveries_left cf st
       \<and> length (sent st') \<le> Suc (length (sent st))
       \<and> (slept st' = slept st
           \<or> (i < 2 \<and> slept st' = slept st @ [RETRY_DELAYS ! i] \<and> res = Inr (Next cf)))"
proof -
  obtain res1 st1 where sr: "send_request e a i st = (res1, st1)"
    by (cases "send_request e a i st")
  note c = send_request_cases [OF sr]
  have len: "length (sent st1) \<le> Suc (length (sent st))" using c by auto
  have rl: "recoveries_left cf st1 = recoveries_left cf st"
    using c by (simp add: recoveries_left_def)
  show ?thesis
  proof (cases res1)
    case (Inl x)
    then have "res = Inl x \<and> st' = st1" using h sr by (simp add: try_body_def)
    then show ?thesis using c len rl by (simp add: flow_left_def)
  next
    case (Inr r)
    then have s1: "session st1 \<noteq> None" using c by simp
    have eq: "n_recover st1 = n_recover st" "slept st1 = slept st" using c by simp_all
    consider (two) "200 \<le> resp_status r \<and> resp_status r < 300"
      | (four) "\<not> (200 \<le> resp_status r \<and> resp_status r < 300)"
               "400 \<le> resp_status r \<and> resp_status r < 500"
      | (five) "\<not> (200 \<le> resp_status r \<and> resp_status r < 300)"
               "\<not> (400 \<le> resp_status r \<and> resp_status r < 500)" "resp_status r \<ge> 500"
      | (other) "\<not> (200 \<le> resp_status r \<and> resp_status r < 300)"
               "\<not> (400 \<le> resp_status r \<and> resp_status r < 500)" "\<not> resp_status r \<ge> 500"
      by blast
    then show ?thesis
    proof cases
      case two
      then have "handle_2xx e a cf r st1 = (res, st')"
        using h sr Inr by (auto simp add: try_body_def Let_def split: if_splits)
      from handle_2xx_left [OF this s1] show ?thesis using eq rl len by simp
    next
      case four
      then have "handle_4xx e a cf r st1 = (res, st')"
        using h sr Inr by (auto simp add: try_body_def Let_def split: if_splits)
      from handle_4xx_left [OF this s1] show ?thesis using eq rl len by simp
    next
      case five
      then have "handle_5xx e a i cf r st1 = (res, st')"
        using h sr Inr by (auto simp add: try_body_def Let_def split: if_splits)
      from handle_5xx_left [OF this s1] show ?thesis using eq rl len by auto
    next
      case other
      then have "res = Inr (Next cf) \<and> st' = st1"
        using h sr Inr by (auto simp add: try_body_def Let_def split: if_splits)
      then show ?thesis using eq rl len by (simp add: flow_left_def)
    qed
  qed
qed

lemma iteration_left:
  assumes h: "iteration e a i cf st = (fl, st')"
  shows "n_recover st' + (case fl of Return r \<Rightarrow> 0 | Next c \<Rightarrow> recoveries_left c st')
           \<le> n_recover st + recoveries_left cf st
       \<and> length (sent st') \<le> Suc (length (sent st))
       \<and> (slept st' = slept st \<or> (i < 2 \<and> slept st' = slept st @ [RETRY_DELAYS ! i]))"
proof -
  obtain res st1 where tb: "try_body e a i cf st = (res, st1)"
    by (cases "try_body e a i cf st")
  note t = try_body_left [OF tb]
  show ?thesis
  proof (cases res)
    case (Inr fl1)
    then have "fl = fl1 \<and> st' = st1" using h tb by (simp add: iteration_def)
    then show ?thesis using t Inr by (auto simp add: flow_left_def split: flow.splits)
  next
    case (Inl x)
    then have sl: "slept st1 = slept st" using t by auto
    obtain fin where b: "backoff i cf fin st1 = (fl, st')"
      using h tb Inl by (cases x) (auto simp add: iteration_def)
    from backoff_cases [OF b] show ?thesis
      using t Inl sl by (auto simp add: flow_left_def recoveries_left_def)
  qed
qed

lemma retry_loop_recoveries:
  "retry_loop e a is cf st = (r, st') \<Longrightarrow> n_recover st' \<le> n_recover st + recoveries_left cf st"
proof (induction "is" arbitrary: cf st)
  case Nil
  then show ?case by simp
next
  case (Cons i "is")
  obtain fl st1 where it: "iteration e a i cf st = (fl, st1)"
    by (cases "iteration e a i cf st")
  note l = iteration_left [OF it]
  show ?case
  proof (cases fl)
    case (Return r1)
    then show ?thesis using Cons.prems it l by simp
  next
    case (Next c)
    then have "retry_loop e a is c st1 = (r, st')" using Cons.prems it by simp
    from Cons.IH [OF this] show ?thesis using l Next by simp
  qed
qed

lemma retry_loop_sent:
  "retry_loop e a is cf st = (r, st') \<Longrightarrow> length (sent st') \<le> length (sent st) + length is"
proof (induction "is" arbitrary: cf st)
  case Nil
  then show ?case by simp
next
  case (Cons i "is")
  obtain fl st1 where it: "iteration e a i cf st = (fl, st1)"
    by (cases "iteration e a i cf st")
  note l = iteration_left [OF it]
  show ?case
  proof (cases fl)
    case (Return r1)
    then show ?thesis using Cons.prems it l by simp
  next
    case (Next c)
    then have "retry_loop e a is c st1 = (r, st')" using Cons.prems it by simp
    from Cons.IH [OF this] show ?thesis using l by simp
  qed
qed

lemma retry_loop_slept:
  "retry_loop e a is cf st = (r, st') \<Longrightarrow>
     \<exists>ds. slept st' = slept st @ ds
        \<and> subseq ds (map (\<lambda>i. RETRY_DELAYS ! i) (filter (\<lambda>i. i < 2) is))"
proof (induction "is" arbitrary: cf st)
  case Nil
  then show ?case by simp
next
  case (Cons i "is")
  obtain fl st1 where it: "iteration e a i cf st = (fl, st1)"
    by (cases "iteration e a i cf st")
  note l = iteration_left [OF it]
  show ?case
  proof (cases fl)
    case (Return r1)
    then have "st' = st1" using Cons.prems it by simp
    then show ?thesis using l by auto
  next
    case (Next c)
    then have "retry_loop e a is c st1 = (r, st')" using Cons.prems it by simp
    from Cons.IH [OF this] obtain ds where ds: "slept st' = slept st1 @ ds"
      "subseq ds (map (\<lambda>i. RETRY_DELAYS ! i) (filter (\<lambda>i. i < 2) is))" by blast
    from l have "slept st1 = slept st \<or> (i < 2 \<and> slept st1 = slept st @ [RETRY_DELAYS ! i])"
      by simp
    then show ?thesis
    proof
      assume "slept st1 = slept st"
      then show ?thesis using ds by (auto intro: subseq_Cons')
    next
      assume "i < 2 \<and> slept st1 = slept st @ [RETRY_DELAYS ! i]"
      then show ?thesis using ds by (intro exI [of _ "(RETRY_DELAYS ! i) # ds"]) simp
    qed
  qed
qed

lemma build_request_frame [simp]:
  "build_request a (st\<lparr>sent := x\<rparr>) = build_request a st"
  "build_request a (st\<lparr>slept := y\<rparr>) = build_request a st"
  by (simp_all add: build_request_def)



lemma make_request_bounds:
  assumes "make_request e a st = (res, st')"
  shows "n_recover st' \<le> Suc (n_recover st)"
    and "length (sent st') \<le> length (sent st) + 3"
    and "\<exists>ds. slept st' = slept st @ ds \<and> subseq ds [1, 2]"
proof -
  have loop: "n_recover st2 \<le> Suc (n_recover st1) \<and> length (sent st2) \<le> length (sent st1) + 3
      \<and> (\<exists>ds. slept st2 = slept st1 @ ds \<and> subseq ds [1, 2])"
    if "retry_loop e a [0, 1, 2] False st1 = (r, st2)" for r st1 st2
    using retry_loop_recoveries [OF that] retry_loop_sent [OF that] retry_loop_slept [OF that]
    by (auto simp add: RETRY_DELAYS_def recoveries_left_def split: if_splits)
  show "n_recover st' \<le> Suc (n_recover st)"
  proof (cases "session st")
    case (Some s)
    then show ?thesis using assms loop
      by (auto simp add: make_request_def range3 split: prod.splits)
  next
    case None
    obtain c st1 where c: "create_session e st = (c, st1)" by (cases "create_session e st")
    have f: "n_recover st1 = n_recover st"
      using create_frame(2) [of e st] c by simp
    show ?thesis
    proof (cases c)
      case (Inl x)
      then show ?thesis using assms None c f by (simp add: make_request_def)
    next
      case (Inr s)
      then obtain r where "retry_loop e a [0, 1, 2] False (st1\<lparr>session := Some s\<rparr>) = (r, st')"
        using assms None c by (auto simp add: make_request_def range3 split: prod.splits)
      from loop [OF this] show ?thesis using f by simp
    qed
  qed
  show "length (sent st') \<le> length (sent st) + 3"
  proof (cases "session st")
    case (Some s)
    then show ?thesis using assms loop
      by (auto simp add: make_request_def range3 split: prod.splits)
  next
    case None
    obtain c st1 where c: "create_session e st = (c, st1)" by (cases "create_session e st")
    have f: "sent st1 = sent st"
      using create_frame(3) [of e st] c by simp
    show ?thesis
    proof (cases c)
      case (Inl x)
      then show ?thesis using assms None c f by (simp add: make_request_def)
    next
      case (Inr s)
      then obtain r where "retry_loop e a [0, 1, 2] False (st1\<lparr>session := Some s\<rparr>) = (r, st')"
        using assms None c by (auto simp add: make_request_def range3 split: prod.splits)
      from loop [OF this] show ?thesis using f by simp
    qed
  qed
  show "\<exists>ds. slept st' = slept st @ ds \<and> subseq ds [1, 2]"
  proof (cases "session st")
    case (Some s)
    then show ?thesis using assms loop
      by (auto simp add: make_request_def range3 split: prod.splits)
  next
    case None
    obtain c st1 where c: "create_session e st = (c, st1)" by (cases "create_session e st")
    have f: "slept st1 = slept st"
      using create_frame(4) [of e st] c by simp
    show ?thesis
    proof (cases c)
      case (Inl x)
      then show ?thesis using assms None c f by (simp add: make_request_def)
    next
      case (Inr s)
      then obtain r where "retry_loop e a [0, 1, 2] False (st1\<lparr>session := Some s\<rparr>) = (r, st')"
        using assms None c by (auto simp add: make_request_def range3 split: prod.splits)
      from loop [OF this] show ?thesis using f by simp
    qed
  qed
qed







lemma simplify_non_string:
  assumes "truthy v" "\<forall>t. v \<noteq> JStr t"
  shows "simplify_error_text v = Inl (attr_error ''lstrip'')"
  using assms by (cases v) (simp_all add: simplify_error_text_def looks_like_html_def)

lemma iteration_4xx_detail:
  assumes s: "session st = Some s" and b: "build_request a st = Inr rq"
    and h: "http e (length (sent st)) s rq = HttpResponse r"
    and sc: "400 \<le> resp_status r" "resp_status r < 500"
    and j: "resp_json r = Some (JObj d)" and d: "map_of d ''detail'' = Some v"
    and v: "truthy v" "\<forall>t. v \<noteq> JStr t"
  shows "iteration e a i cf st =
           backoff i cf (exception_final (attr_error ''lstrip''))
             (st\<lparr>sent := sent st @ [(i, rq)]\<rparr>)"
proof -
  have sr: "send_request e a i st = (Inr r, st\<lparr>sent := sent st @ [(i, rq)]\<rparr>)"
    using s b h by (simp add: send_request_def)
  obtain c0 where p: "parse_4xx r = (v, c0)"
    using j d by (simp add: parse_4xx_def dict_get_default_def)
  have "handle_4xx e a cf r (st\<lparr>sent := sent st @ [(i, rq)]\<rparr>)
          = (Inl (attr_error ''lstrip''), st\<lparr>sent := sent st @ [(i, rq)]\<rparr>)"
    using simplify_non_string [OF v]
    by (simp add: handle_4xx_def p)
  then have "try_body e a i cf st = (Inl (attr_error ''lstrip''), st\<lparr>sent := sent st @ [(i, rq)]\<rparr>)"
    using sr sc by (simp add: try_body_def)
  then show ?thesis by (simp add: iteration_def attr_error_def)
qed

lemma build_request_get:
  assumes "http_method a = ''GET''"
  shows "\<exists>rq. build_request a st = Inr rq \<and> req_url rq = url a"
  using assms by (simp add: build_request_def Let_def)

lemma retry_loop_ok:
  assumes m: "http_method a = ''GET''" and s: "session st = Some s"
    and srv: "\<forall>n s rq. req_url rq = url a \<longrightarrow> http e n s rq = HttpResponse r"
    and ok: "200 \<le> resp_status r" "resp_status r < 300" "resp_json r = Some d"
  shows "\<exists>st'. retry_loop e a (0 # rest) cf st = (ok_envelope (resp_status r) d, st')
           \<and> session st' = session st
           \<and> urls_sent st' = urls_sent st @ [(0, url a)]"
proof -
  obtain rq where b: "build_request a st = Inr rq" "req_url rq = url a"
    using build_request_get [OF m] by blast
  have h: "http e (length (sent st)) s rq = HttpResponse r" using srv b by simp
  have sr: "send_request e a 0 st = (Inr r, st\<lparr>sent := sent st @ [(0, rq)]\<rparr>)"
    using s b h by (simp add: send_request_def)
  have "try_body e a 0 cf st
      = (Inr (Return (ok_envelope (resp_status r) d)), st\<lparr>sent := sent st @ [(0, rq)]\<rparr>)"
    using sr ok by (simp add: try_body_def handle_2xx_def ok_envelope_def)
  then have "retry_loop e a (0 # rest) cf st
      = (ok_envelope (resp_status r) d, st\<lparr>sent := sent st @ [(0, rq)]\<rparr>)"
    by (simp add: iteration_def)
  then show ?thesis using b by (simp add: urls_sent_def)
qed

lemma make_request_ok:
  assumes m: "http_method a = ''GET''"
    and can: "session st \<noteq> None \<or> session_ctor e (n_ctor st) = None"
    and srv: "\<forall>n s rq. req_url rq = url a \<longrightarrow> http e n s rq = HttpResponse r"
    and ok: "200 \<le> resp_status r" "resp_status r < 300" "resp_json r = Some d"
  shows "\<exists>st'. make_request e a st = (Inr (ok_envelope (resp_status r) d), st')
           \<and> session st' \<noteq> None
           \<and> urls_sent st' = urls_sent st @ [(0, url a)]"
proof (cases "session st")
  case (Some s)
  from retry_loop_ok [OF m Some srv ok, of "[1, 2]" False] Some
  show ?thesis by (auto simp add: make_request_def range3)
next
  case None
  then have c: "session_ctor e (n_ctor st) = None" using can by simp
  define st1 where "st1 = snd (create_session e st)"
  obtain s where cs: "create_session e st = (Inr s, st1)"
    using c by (simp add: create_session_def Let_def ensure_frame st1_def)
  have f: "sent st1 = sent st" using create_frame(3) [of e st] by (simp add: st1_def)
  have s1: "session (st1\<lparr>session := Some s\<rparr>) = Some s" by simp
  from retry_loop_ok [OF m s1 srv ok, of "[1, 2]" False]
  show ?thesis using None cs f
    by (auto simp add: make_request_def range3 urls_sent_def)
qed

lemma get_members_loop_more:
  assumes m: "\<forall>n s rq. req_url rq = members_url acc 50 off \<longrightarrow> http e n s rq = HttpResponse (page t p tot)"
    and can: "session st \<noteq> None \<or> session_ctor e (n_ctor st) = None"
  shows "\<exists>st1. session st1 \<noteq> None
           \<and> urls_sent st1 = urls_sent st @ [(0, members_url acc 50 off)]
           \<and> get_members_loop (Suc fuel) e tok acc db ms off st
               = (if int (length (ms @ p)) \<ge> tot
                  then Some (Inr \<lparr>m_success = True, members = ms @ p, m_total = length (ms @ p),
                                  m_error = None, m_error_code = JNull\<rparr>, st1)
                  else get_members_loop fuel e tok acc db (ms @ p) (off + 50) st1)"
proof -
  let ?a = "\<lparr>http_method = ''GET'', url = members_url acc 50 off,
             headers = [(''Authorization'', ''Bearer '' @ tok)],
             json_data = None, db_session = db\<rparr>"
  have "\<exists>st'. make_request e ?a st
      = (Inr (ok_envelope (resp_status (page t p tot))
           (JObj [(''items'', JArr p), (''total'', JInt tot)])), st')
      \<and> session st' \<noteq> None \<and> urls_sent st' = urls_sent st @ [(0, url ?a)]"
    by (rule make_request_ok [OF _ can]) (use m in \<open>simp_all add: page_def\<close>)
  then obtain st1 where mr: "make_request e ?a st
      = (Inr (ok_envelope 200 (JObj [(''items'', JArr p), (''total'', JInt tot)])), st1)"
    and s1: "session st1 \<noteq> None" "urls_sent st1 = urls_sent st @ [(0, members_url acc 50 off)]"
    by (auto simp add: page_def)
  show ?thesis
    using s1 mr
    by (intro exI [of _ st1])
       (simp add: Let_def ok_envelope_def dict_get_default_def extend_def reached_def)
qed

lemma get_members_loop_total:
  "get_members_loop fuel e tok acc db ms off st = Some (Inr r, st') \<Longrightarrow> m_success r \<Longrightarrow>
     m_total r = length (members r)"
proof (induction fuel arbitrary: ms off st)
  case 0
  then show ?case by simp
next
  case (Suc fuel)
  then show ?case
    by (auto simp add: Let_def split: prod.splits sum.splits if_splits json.splits bool.splits)
qed

lemma members_urls:
  "members_url ''acc'' 50 0 = ''https://chatgpt.com/backend-api/accounts/acc/users?limit=50&offset=0''"
  "members_url ''acc'' 50 50 = ''https://chatgpt.com/backend-api/accounts/acc/users?limit=50&offset=50''"
  "members_url ''acc'' 50 100 = ''https://chatgpt.com/backend-api/accounts/acc/users?limit=50&offset=100''"
  by code_simp+

lemma ids_append:
  assumes "i \<le> j" "j \<le> k"
  shows "ids i j @ ids j k = ids i k"
proof -
  obtain d where d: "k = j + d" using assms(2) by (auto simp add: le_iff_add)
  have "[i..<j + d] = [i..<j] @ [j..<j + d]"
    using assms(1) by (rule upt_add_eq_append)
  then show ?thesis by (simp add: ids_def d)
qed

lemma distinct_ids: "distinct (ids i j)"
  by (simp add: ids_def distinct_map inj_on_def)

lemma make_request_with_session_returns:
  "session st = Some s \<Longrightarrow> \<exists>r. fst (make_request e a st) = Inr r"
  by (simp add: make_request_def split: prod.splits)

lemma unsupported_method_is_converted:
  "fst (make_request env_ok args_patch st_open)
     = Inr (exception_final (ValueError [Lit UnsupportedMethod, Txt ''PATCH'']))
   \<and> sent (snd (make_request env_ok args_patch st_open)) = []
   \<and> slept (snd (make_request env_ok args_patch st_open)) = [1, 2]"
proof -
  have "fst (make_request env_ok args_patch st_open)
     = Inr (exception_final (ValueError [Lit UnsupportedMethod, Txt ''PATCH'']))"
    by code_simp
  moreover have "sent (snd (make_request env_ok args_patch st_open)) = []"
    by code_simp
  moreover have "slept (snd (make_request env_ok args_patch st_open)) = [1, 2]"
    by code_simp
  ultimately show ?thesis by simp
qed

section \<open>The claims\<close>

subsection \<open>C6: validity of the cached clearance cookies\<close>



subsection \<open>C9: closing the session\<close>

text \<open>
  C9 asks that \<^verbatim>\<open>close\<close> leaves no session on every path. When the close of the
  underlying session raises, the exception leaves \<^verbatim>\<open>close\<close> before the assignment
  \<^verbatim>\<open>self.session = None\<close>, and the service object keeps the session. (The recovery
  path, \<^verbatim>\<open>_try_cf_recovery\<close>, swallows the same exception and drops the session.)
\<close>

theorem close_raising_keeps_session:
  "session st = Some s \<Longrightarrow> session_close e (n_close st) = Some x \<Longrightarrow>
     close e st = (Inl x, st\<lparr>n_close := Suc (n_close st)\<rparr>)
     \<and> session (snd (close e st)) = Some s"
  by (simp add: close_def)

theorem close_raising_keeps_session_witness:
  "session st_open = Some \<lparr>sid = 0, jar = []\<rparr>
   \<and> session_close env_close_fails (n_close st_open) = Some (OtherError [Txt ''connection lost''])
   \<and> fst (close env_close_fails st_open) = Inl (OtherError [Txt ''connection lost''])
   \<and> session (snd (close env_close_fails st_open)) = Some \<lparr>sid = 0, jar = []\<rparr>"
  using close_raising_keeps_session
          [of st_open "\<lparr>sid = 0, jar = []\<rparr>" env_close_fails "OtherError [Txt ''connection lost'']"]
  by (simp add: st_open_def init_def env_close_fails_def)

subsection \<open>C1: one challenge recovery per call\<close>

text \<open>
  C1. One call of \<^verbatim>\<open>_make_request\<close> calls \<^verbatim>\<open>_try_cf_recovery\<close> at most once, whatever
  the world answers and whichever branch detects the challenge. (A recovery that
  returns False ends the call; one that returns True sets \<^verbatim>\<open>cf_retried\<close>; one that
  raises while rebuilding the session leaves the object without a session, and no
  later attempt reads a response.)
\<close>

theorem at_most_one_recovery:
  "n_recover (snd (make_request e a st)) \<le> Suc (n_recover st)"
  by (rule make_request_bounds(1) [of e a st "fst (make_request e a st)"]) simp

theorem at_most_one_recovery_witness:
  "n_recover (snd (make_request env_challenge args_get st_open)) \<le> Suc (n_recover st_open)
   \<and> map fst (sent (snd (make_request env_challenge args_get st_open))) = [0, 1]
   \<and> n_recover (snd (make_request env_challenge args_get st_open)) = 1
   \<and> fst (make_request env_challenge args_get st_open)
       = Inr (failure 403 [Lit CloudflareBlocked] (JStr ''cloudflare_challenge''))"
proof -
  have "map fst (sent (snd (make_request env_challenge args_get st_open))) = [0, 1]"
    by code_simp
  moreover have "n_recover (snd (make_request env_challenge args_get st_open)) = 1"
    by code_simp
  moreover have "fst (make_request env_challenge args_get st_open)
       = Inr (failure 403 [Lit CloudflareBlocked] (JStr ''cloudflare_challenge''))"
    by code_simp
  ultimately show ?thesis
    using at_most_one_recovery [of env_challenge args_get st_open] by simp
qed

subsection \<open>C3: the retry budget\<close>




subsection \<open>C4: classification of a challenge body\<close>




subsection \<open>C2: the attempt index after a successful recovery\<close>




subsection \<open>C5: a client error is not retried\<close>

text \<open>
  C5 asks for exactly one attempt on every 4xx that is not a challenge, as the comment
  of the branch says (line 307: client error, no retry). The branch hands the value
  under \<^verbatim>\<open>detail\<close> to \<^verbatim>\<open>_simplify_error_text\<close> whatever its type. When that value is
  a non-empty object or list (or a number), \<^verbatim>\<open>_looks_like_html\<close> calls \<^verbatim>\<open>lstrip\<close> on it
  and raises AttributeError; the handler of the loop takes the exception for a
  transport failure, waits and sends the request again. A 4xx of this shape costs
  three requests and two waits, and the envelope bears the status 0.
\<close>

theorem client_error_detail_object_retried:
  assumes s: "session st = Some s" and b: "build_request a st = Inr rq"
    and h: "\<forall>n. http e n s rq = HttpResponse r"
    and sc: "400 \<le> resp_status r" "resp_status r < 500"
    and j: "resp_json r = Some (JObj d)" and d: "map_of d ''detail'' = Some v"
    and v: "truthy v" "\<forall>t. v \<noteq> JStr t"
  shows "make_request e a st =
           (Inr (exception_final (attr_error ''lstrip'')),
            st\<lparr>sent := sent st @ [(0, rq), (1, rq), (2, rq)], slept := slept st @ [1, 2]\<rparr>)"
proof -
  define st1 where "st1 = st\<lparr>sent := sent st @ [(0, rq)], slept := slept st @ [1]\<rparr>"
  define st2 where "st2 = st1\<lparr>sent := sent st1 @ [(1, rq)], slept := slept st1 @ [2]\<rparr>"
  have i0: "iteration e a 0 False st = (Next False, st1)"
    using iteration_4xx_detail [OF s b h [rule_format] sc j d v, of 0 False]
    by (simp add: backoff_def MAX_RETRIES_def RETRY_DELAYS_def st1_def)
  have s1: "session st1 = Some s" "build_request a st1 = Inr rq"
    using s b by (simp_all add: st1_def)
  have i1: "iteration e a (Suc 0) False st1 = (Next False, st2)"
    using iteration_4xx_detail [OF s1 h [rule_format] sc j d v, of "Suc 0" False]
    by (simp add: backoff_def MAX_RETRIES_def RETRY_DELAYS_def st2_def)
  have s2: "session st2 = Some s" "build_request a st2 = Inr rq"
    using s1 by (simp_all add: st2_def)
  have i2: "iteration e a 2 False st2 =
      (Return (exception_final (attr_error ''lstrip'')), st2\<lparr>sent := sent st2 @ [(2, rq)]\<rparr>)"
    using iteration_4xx_detail [OF s2 h [rule_format] sc j d v, of 2 False]
    by (simp add: backoff_def MAX_RETRIES_def)
  have "retry_loop e a [0, 1, 2] False st =
      (exception_final (attr_error ''lstrip''),
       st\<lparr>sent := sent st @ [(0, rq), (1, rq), (2, rq)], slept := slept st @ [1, 2]\<rparr>)"
    by (simp add: i0 i1 i2) (simp add: st2_def st1_def)
  then show ?thesis using s by (simp add: make_request_def range3)
qed

theorem client_error_detail_object_retried_witness:
  "session st_open = Some \<lparr>sid = 0, jar = []\<rparr>
   \<and> build_request args_get st_open = Inr get_invites_request
   \<and> http env_401 0 \<lparr>sid = 0, jar = []\<rparr> get_invites_request = HttpResponse expired_token
   \<and> resp_status expired_token = 401
   \<and> fst (make_request env_401 args_get st_open) = Inr (exception_final (attr_error ''lstrip''))
   \<and> status_code (exception_final (attr_error ''lstrip'')) = 0
   \<and> map fst (sent (snd (make_request env_401 args_get st_open))) = [0, 1, 2]
   \<and> slept (snd (make_request env_401 args_get st_open)) = [1, 2]"
proof -
  have s: "session st_open = Some \<lparr>sid = 0, jar = []\<rparr>"
    by (simp add: st_open_def init_def)
  have b: "build_request args_get st_open = Inr get_invites_request"
    by (simp add: build_request_def args_get_def st_open_def init_def get_invites_request_def)
  have h: "\<forall>n. http env_401 n \<lparr>sid = 0, jar = []\<rparr> get_invites_request = HttpResponse expired_token"
    by (simp add: env_401_def env_ok_def)
  have sc: "400 \<le> resp_status expired_token" "resp_status expired_token < 500"
    by (simp_all add: expired_token_def)
  have j: "resp_json expired_token = Some (JObj [(''detail'',
         JObj [(''message'', JStr ''token expired''), (''code'', JStr ''token_expired'')])])"
    by (simp add: expired_token_def)
  note t = client_error_detail_object_retried [OF s b h sc j, of
      "JObj [(''message'', JStr ''token expired''), (''code'', JStr ''token_expired'')]", simplified]
  show ?thesis
    using s b h t by (simp add: st_open_def init_def expired_token_def exception_final_def failure_def)
qed

subsection \<open>C10: the total that get_members returns\<close>

text \<open>
  C10. When \<^verbatim>\<open>get_members\<close> succeeds, the \<^verbatim>\<open>total\<close> of its result is the length of the
  list of members it returns, whatever totals the server reported. (In the example
  the first page reports 5; the loop ends on the second page, which reports 3, with 3
  members delivered, and the result says 3.)
\<close>

theorem get_members_total_is_length:
  "get_members fuel e access_token account_id db st = Some (Inr r, st') \<Longrightarrow> m_success r \<Longrightarrow>
     m_total r = length (members r)"
  unfolding get_members_def by (rule get_members_loop_total)

theorem get_members_total_is_length_witness:
  "get_members 2 env_members_short ''tok'' ''acc'' True st_open \<noteq> None
   \<and> fst (the (get_members 2 env_members_short ''tok'' ''acc'' True st_open))
       = Inr \<lparr>m_success = True, members = [JInt 0, JInt 1, JInt 2], m_total = 3,
              m_error = None, m_error_code = JNull\<rparr>
   \<and> resp_json (ids_page 0 2 5)
       = Some (JObj [(''items'', JArr [JInt 0, JInt 1]), (''total'', JInt 5)])
   \<and> m_total \<lparr>m_success = True, members = [JInt 0, JInt 1, JInt 2], m_total = 3,
               m_error = None, m_error_code = JNull\<rparr>
       = length (members \<lparr>m_success = True, members = [JInt 0, JInt 1, JInt 2], m_total = 3,
               m_error = None, m_error_code = JNull\<rparr>)"
proof -
  let ?g = "get_members 2 env_members_short ''tok'' ''acc'' True st_open"
  have a: "fst (the ?g) = Inr \<lparr>m_success = True, members = [JInt 0, JInt 1, JInt 2], m_total = 3,
            m_error = None, m_error_code = JNull\<rparr>"
    by code_simp
  have b: "?g \<noteq> None" by code_simp
  have c: "resp_json (ids_page 0 2 5)
       = Some (JObj [(''items'', JArr [JInt 0, JInt 1]), (''total'', JInt 5)])"
    by code_simp
  from b a have g: "?g = Some (Inr \<lparr>m_success = True, members = [JInt 0, JInt 1, JInt 2],
            m_total = 3, m_error = None, m_error_code = JNull\<rparr>, snd (the ?g))"
    by (cases ?g) (auto simp add: prod_eq_iff)
  have d: "m_total \<lparr>m_success = True, members = [JInt 0, JInt 1, JInt 2],
            m_total = 3, m_error = None, m_error_code = JNull\<rparr>
        = length (members \<lparr>m_success = True, members = [JInt 0, JInt 1, JInt 2],
            m_total = 3, m_error = None, m_error_code = JNull\<rparr>)"
    by (rule get_members_total_is_length [OF g]) simp
  show ?thesis by (intro conjI b a c d)
qed

subsection \<open>C7: paging through 120 members\<close>

text \<open>
  C7. Against a server that reports the total 120 and answers the offsets 0 and 50
  with 50 members each and the offset 100 with 20 members, \<^verbatim>\<open>get_members\<close> returns
  (three iterations of its loop suffice): it sends exactly three requests, for
  the offsets 0, 50 and 100 in this order, each at the first attempt, and its result
  is a success whose members are the three pages one after the other, 120 in all,
  every delivered member once.
\<close>

theorem get_members_three_pages:
  assumes can: "session st \<noteq> None \<or> session_ctor e (n_ctor st) = None"
    and srv0: "\<forall>n s rq. req_url rq = members_url acc 50 0 \<longrightarrow>
                 http e n s rq = HttpResponse (page t0 p0 120)"
    and srv1: "\<forall>n s rq. req_url rq = members_url acc 50 50 \<longrightarrow>
                 http e n s rq = HttpResponse (page t1 p1 120)"
    and srv2: "\<forall>n s rq. req_url rq = members_url acc 50 100 \<longrightarrow>
                 http e n s rq = HttpResponse (page t2 p2 120)"
    and len: "length p0 = 50" "length p1 = 50" "length p2 = 20"
    and fuel: "3 \<le> fuel"
  shows "\<exists>st'. get_members fuel e tok acc db st
           = Some (Inr \<lparr>m_success = True, members = p0 @ p1 @ p2, m_total = 120,
                         m_error = None, m_error_code = JNull\<rparr>, st')
         \<and> urls_sent st' = urls_sent st @ [(0, members_url acc 50 0),
               (0, members_url acc 50 50), (0, members_url acc 50 100)]"
proof -
  obtain k where k: "fuel = Suc (Suc (Suc k))"
    using fuel by (metis Suc_le_D numeral_3_eq_3 Suc_le_mono)
  from get_members_loop_more [OF srv0 can, of "Suc (Suc k)" tok db "[]"] len
  obtain st1 where s1: "session st1 \<noteq> None"
      "urls_sent st1 = urls_sent st @ [(0, members_url acc 50 0)]"
    and g1: "get_members_loop (Suc (Suc (Suc k))) e tok acc db [] 0 st
               = get_members_loop (Suc (Suc k)) e tok acc db p0 50 st1"
    by auto
  from s1(1) have can1: "session st1 \<noteq> None \<or> session_ctor e (n_ctor st1) = None" by simp
  from get_members_loop_more [OF srv1 can1, of "Suc k" tok db p0] len
  obtain st2 where s2: "session st2 \<noteq> None"
      "urls_sent st2 = urls_sent st1 @ [(0, members_url acc 50 50)]"
    and g2: "get_members_loop (Suc (Suc k)) e tok acc db p0 50 st1
               = get_members_loop (Suc k) e tok acc db (p0 @ p1) 100 st2"
    by auto
  from s2(1) have can2: "session st2 \<noteq> None \<or> session_ctor e (n_ctor st2) = None" by simp
  from get_members_loop_more [OF srv2 can2, of k tok db "p0 @ p1"] len
  obtain st3 where s3: "urls_sent st3 = urls_sent st2 @ [(0, members_url acc 50 100)]"
    and g3: "get_members_loop (Suc k) e tok acc db (p0 @ p1) 100 st2
               = Some (Inr \<lparr>m_success = True, members = p0 @ p1 @ p2, m_total = 120,
                             m_error = None, m_error_code = JNull\<rparr>, st3)"
    by auto
  show ?thesis
    using k g1 g2 g3 s1(2) s2(2) s3 by (simp add: get_members_def)
qed

theorem get_members_three_pages_witness:
  "session init = None \<and> session_ctor env_members (n_ctor init) = None
   \<and> (\<exists>st'. get_members 3 env_members ''tok'' ''acc'' True init
         = Some (Inr \<lparr>m_success = True, members = ids 0 120, m_total = 120,
                       m_error = None, m_error_code = JNull\<rparr>, st')
       \<and> urls_sent st' = [(0, members_url ''acc'' 50 0), (0, members_url ''acc'' 50 50),
              (0, members_url ''acc'' 50 100)])
   \<and> length (ids 0 120) = 120 \<and> distinct (ids 0 120)"
proof -
  have can: "session init \<noteq> None \<or> session_ctor env_members (n_ctor init) = None"
    by (simp add: env_members_def env_ok_def)
  have srv0: "\<forall>n s rq. req_url rq = members_url ''acc'' 50 0 \<longrightarrow>
      http env_members n s rq = HttpResponse (page (ids_body 0 50 120) (ids 0 50) 120)"
    by (simp add: env_members_def ids_page_def)
  have srv1: "\<forall>n s rq. req_url rq = members_url ''acc'' 50 50 \<longrightarrow>
      http env_members n s rq = HttpResponse (page (ids_body 50 100 120) (ids 50 100) 120)"
    by (simp add: env_members_def ids_page_def members_urls)
  have srv2: "\<forall>n s rq. req_url rq = members_url ''acc'' 50 100 \<longrightarrow>
      http env_members n s rq = HttpResponse (page (ids_body 100 120 120) (ids 100 120) 120)"
    by (simp add: env_members_def ids_page_def members_urls)
  have len: "length (ids 0 50) = 50" "length (ids 50 100) = 50" "length (ids 100 120) = 20"
    by (simp_all add: ids_def)
  have app: "ids 0 50 @ ids 50 100 @ ids 100 120 = ids 0 120"
    by (simp add: ids_append)
  have u: "urls_sent init = []" by (simp add: urls_sent_def init_def)
  note t = get_members_three_pages [OF can srv0 srv1 srv2 len order_refl, of "''tok''" True]
  have r: "\<exists>st'. get_members 3 env_members ''tok'' ''acc'' True init
         = Some (Inr \<lparr>m_success = True, members = ids 0 120, m_total = 120,
                       m_error = None, m_error_code = JNull\<rparr>, st')
       \<and> urls_sent st' = [(0, members_url ''acc'' 50 0), (0, members_url ''acc'' 50 50),
              (0, members_url ''acc'' 50 100)]"
    using t by (simp only: app u append_Nil)
  have s0: "session init = None" by (simp add: init_def)
  have c0: "session_ctor env_members (n_ctor init) = None"
    by (simp add: env_members_def env_ok_def)
  have l: "length (ids 0 120) = 120" by (simp add: ids_def)
  show ?thesis by (intro conjI s0 c0 r l distinct_ids)
qed

subsection \<open>C8: exceptions at the boundary of the executor\<close>

text \<open>
  C8 asks that \<^verbatim>\<open>_make_request\<close> turns every failure into an envelope, a failure
  while creating the session included. Inside the loop it does: an unsupported method,
  a transport error and a failure of the recovery (which rebuilds the session by the
  same \<^verbatim>\<open>_create_session\<close>) all end in an envelope. The session of the entry (lines 225
  and 226) is created before the \<^verbatim>\<open>try\<close>: when the object has no session and the
  constructor raises, the exception leaves \<^verbatim>\<open>_make_request\<close>, no request is sent
  and no envelope is returned.
\<close>

theorem session_creation_failure_escapes:
  assumes "session st = None" and "session_ctor e (n_ctor st) = Some x"
  shows "fst (make_request e a st) = Inl x
       \<and> sent (snd (make_request e a st)) = sent st
       \<and> session (snd (make_request e a st)) = None"
proof -
  obtain st1 where c: "create_session e st = (Inl x, st1)"
    using assms(2) by (simp add: create_session_def Let_def ensure_frame)
  have m: "make_request e a st = (Inl x, st1)"
    using assms(1) c by (simp add: make_request_def)
  have f: "session st1 = session st" "sent st1 = sent st"
    using create_frame(1,3) [of e st] c by simp_all
  show ?thesis
    using m f assms(1) by simp
qed

theorem session_creation_failure_escapes_witness:
  "session init = None
   \<and> session_ctor env_ctor_fails (n_ctor init) = Some (OtherError [Txt ''impersonate''])
   \<and> fst (make_request env_ctor_fails args_get init) = Inl (OtherError [Txt ''impersonate''])
   \<and> sent (snd (make_request env_ctor_fails args_get init)) = []"
proof -
  have s: "session init = None" by (simp add: init_def)
  have c: "session_ctor env_ctor_fails (n_ctor init) = Some (OtherError [Txt ''impersonate''])"
    by (simp add: env_ctor_fails_def env_ok_def)
  note t = session_creation_failure_escapes [OF s c, of args_get]
  have e: "sent init = []" by (simp add: init_def)
  show ?thesis using s c t e by simp
qed

end
